theory Spec2Isabelle
  imports Complex_Main "HOL-Library.Word" "HOL-Library.Sublist"
begin

section \<open>Constants of the C library and of stress-ng.h\<close>

text \<open>
  The two stressors are C functions. Exit statuses and \<open>errno\<close> values are C \<open>int\<close>s
  that are only compared, never computed with, so they are modelled as \<open>int\<close>. The
  \<open>errno\<close> numbers are the Linux ones; \<open>EXIT_NO_RESOURCE\<close> and
  \<open>EXIT_NOT_IMPLEMENTED\<close> are the values of stress-ng.h.
\<close>

definition EXIT_SUCCESS :: int where "EXIT_SUCCESS = 0"
definition EXIT_FAILURE :: int where "EXIT_FAILURE = 1"
definition EXIT_NO_RESOURCE :: int where "EXIT_NO_RESOURCE = 3"
definition EXIT_NOT_IMPLEMENTED :: int where "EXIT_NOT_IMPLEMENTED = 4"

definition EPERM :: int where "EPERM = 1"
definition EINTR :: int where "EINTR = 4"
definition EINVAL :: int where "EINVAL = 22"
definition ENOSYS :: int where "ENOSYS = 38"

definition SIGKILL :: int where "SIGKILL = 9"

section \<open>stress-sighup.c: the shared measurement block and the SIGHUP handler\<close>

text \<open>
  The fields \<open>count\<close>, \<open>t_start\<close> and \<open>latency\<close> of the shared block are C
  \<open>double\<close>s. A finite double is the real number it denotes, and an arithmetic
  operation on doubles is the exact operation followed by rounding to the nearest
  binary64 value, ties to the even significand (the default IEEE 754 mode).
  \<open>double_round\<close> is that rounding: the binade of \<open>x\<close> is \<open>\<lfloor>log 2 \<bar>x\<bar>\<rfloor>\<close>, not
  below the smallest normal exponent -1022, and the spacing of doubles in it is 52
  binary places below. Overflow to infinity and NaN are outside the model: the clock
  values and their sums stay far below \<open>2 ^ 1024\<close>.
\<close>

definition round_half_even :: "real \<Rightarrow> int" where
  "round_half_even r =
     (let f = \<lfloor>r\<rfloor>
      in if r - of_int f < 1 / 2 then f
         else if 1 / 2 < r - of_int f then f + 1
         else if even f then f else f + 1)"

definition double_round :: "real \<Rightarrow> real" where
  "double_round x =
     (if x = 0 then 0
      else
        let e = max \<lfloor>log 2 \<bar>x\<bar>\<rfloor> (- 1022);
            u = 2 powi (e - 52)
        in u * of_int (round_half_even (x / u)))"

text \<open>
  \<open>stress_sighup_info_t\<close> is the struct that lives in the shared anonymous mapping.
\<close>

record stress_sighup_info_t =
  signalled :: bool
  pid :: int
  count :: real
  t_start :: real
  latency :: real

text \<open>
  The body of \<open>if (sighup_info) { ... }\<close> in \<open>stress_sighup_handler\<close>; \<open>now\<close> is
  the value \<open>stress_time_now()\<close> returns inside the handler.
\<close>

definition handler_body :: "real \<Rightarrow> stress_sighup_info_t \<Rightarrow> stress_sighup_info_t" where
  "handler_body now info =
     (let lat = double_round (now - t_start info);
          info1 = info\<lparr>signalled := True\<rparr>
      in if t_start info1 > 0 \<and> lat > 0
         then info1\<lparr>latency := double_round (latency info1 + lat),
                     count := double_round (count info1 + 1)\<rparr>
         else info1)"

text \<open>
  The global pointer \<open>sighup_info\<close> is \<open>None\<close> while nothing is mapped; the handler
  then does nothing.
\<close>

definition stress_sighup_handler ::
  "real \<Rightarrow> stress_sighup_info_t option \<Rightarrow> stress_sighup_info_t option" where
  "stress_sighup_handler now sighup_info =
     (case sighup_info of
        None \<Rightarrow> None
      | Some info \<Rightarrow> Some (handler_body now info))"

text \<open>
  A sequence of signal deliveries. Each delivery is a pair \<open>(ts, now)\<close>: the trial code
  has stored \<open>ts\<close> in \<open>t_start\<close> before the signal lands, and the handler reads the
  clock as \<open>now\<close>.
\<close>

fun deliveries :: "(real \<times> real) list \<Rightarrow> stress_sighup_info_t \<Rightarrow> stress_sighup_info_t" where
  "deliveries [] info = info"
| "deliveries ((ts, now) # ds) info = deliveries ds (handler_body now (info\<lparr>t_start := ts\<rparr>))"


section \<open>stress-sighup.c: the two trial variants\<close>

text \<open>
  What the host answers to the parent: a \<open>fork()\<close> either fails (with its \<open>errno\<close>,
  the answer of \<open>stress_redo_fork\<close> and, when that is false, the answer of
  \<open>stress_continue\<close>) or returns the child's pid (positive) in the parent; a
  \<open>shim_waitpid\<close> either returns a value \<open>\<ge> 0\<close> or fails with an \<open>errno\<close>. The
  \<open>again:\<close> and \<open>rewait:\<close> loops consume a list of such answers; a list that runs out
  while the loop is still retrying gives \<open>None\<close>.
\<close>

datatype fork_res = Fork_failed int bool bool | Fork_ok int

datatype wait_res = Wait_ok | Wait_err int

datatype sighup_event =
    Pr_fail_fork int
  | Pr_fail_waitpid int
  | Pr_fail_handler_not_called
  | Kill_pid_wait int
  | Setpgid int int
  | Kill int int
  | Close_fds

text \<open>
  Variant A, the child (\<open>pid == 0\<close>): it stores the clock in \<open>t_start\<close> and raises
  SIGHUP. \<open>hup\<close> is \<open>Some now\<close> when the handler runs before the child is gone (it
  reads the clock as \<open>now\<close>) and \<open>None\<close> when it never runs.
\<close>

definition raise_signal_child ::
  "real \<Rightarrow> real option \<Rightarrow> stress_sighup_info_t \<Rightarrow> stress_sighup_info_t" where
  "raise_signal_child t0 hup info =
     (let info1 = info\<lparr>t_start := t0\<rparr>
      in case hup of None \<Rightarrow> info1 | Some now \<Rightarrow> handler_body now info1)"

text \<open>Variant A, the parent from \<open>rewait:\<close> on; \<open>info\<close> is the block as the parent reads it.\<close>

fun raise_signal_rewait ::
  "wait_res list \<Rightarrow> stress_sighup_info_t \<Rightarrow> (int \<times> sighup_event list) option" where
  "raise_signal_rewait [] info = None"
| "raise_signal_rewait (Wait_err e # ws) info =
     (if e = EINTR then raise_signal_rewait ws info
      else Some (EXIT_FAILURE, [Pr_fail_waitpid e]))"
| "raise_signal_rewait (Wait_ok # ws) info =
     (if signalled info = False then Some (EXIT_FAILURE, [Pr_fail_handler_not_called])
      else Some (0, []))"

text \<open>
  \<open>stress_sighup_raise_signal\<close> as the parent sees it: the return value, the messages
  and calls it made, and the shared block. The child has run by the time a wait on it
  completes.
\<close>

fun stress_sighup_raise_signal ::
  "fork_res list \<Rightarrow> real \<Rightarrow> real option \<Rightarrow> wait_res list \<Rightarrow> stress_sighup_info_t \<Rightarrow>
   (int \<times> sighup_event list \<times> stress_sighup_info_t) option" where
  "stress_sighup_raise_signal [] t0 hup ws info = None"
| "stress_sighup_raise_signal (Fork_failed e redo cont # fs) t0 hup ws info =
     (if redo then stress_sighup_raise_signal fs t0 hup ws info
      else if \<not> cont then Some (0, [], info)
      else Some (- 1, [Pr_fail_fork e], info))"
| "stress_sighup_raise_signal (Fork_ok p # fs) t0 hup ws info =
     (let info' = raise_signal_child t0 hup info
      in case raise_signal_rewait ws info' of
           None \<Rightarrow> None
         | Some (rc, evs) \<Rightarrow> Some (rc, evs, info'))"

text \<open>
  The host's \<open>read(fd, buf, nbyte)\<close> on the read end of a pipe that holds \<open>avail\<close>
  bytes, after POSIX: it may report an error; a request for zero bytes returns 0 at
  once; otherwise it blocks on an empty pipe and returns at most \<open>nbyte\<close> bytes from a
  filled one.
\<close>

datatype read_res = Read_blocks | Read_returns int

definition sys_read :: "bool \<Rightarrow> nat \<Rightarrow> nat \<Rightarrow> read_res" where
  "sys_read err avail nbyte =
     (if err then Read_returns (- 1)
      else if nbyte = 0 then Read_returns 0
      else if avail = 0 then Read_blocks
      else Read_returns (int (min avail nbyte)))"

text \<open>How a process leaves the function: by \<open>return\<close>, by \<open>_exit\<close>, killed by a signal, or never.\<close>

datatype proc_end = Returns int | Exits int | Killed_by int | Blocked

text \<open>
  Variant B, child A (the \<open>pid == 0\<close> branch of the first fork, and in it the
  \<open>pid2 > 0\<close> branch of the second): \<open>self\<close> is its \<open>getpid()\<close>, \<open>now\<close> the clock
  at line 148.
\<close>

definition process_group_child_A ::
  "bool \<Rightarrow> fork_res \<Rightarrow> bool \<Rightarrow> nat \<Rightarrow> real \<Rightarrow> int \<Rightarrow> stress_sighup_info_t \<Rightarrow>
   proc_end \<times> sighup_event list \<times> stress_sighup_info_t" where
  "process_group_child_A pipe_ok fork2 read_err avail now self info =
     (if \<not> pipe_ok then (Returns 0, [], info)
      else
        let info1 = info\<lparr>t_start := 0\<rparr> in
        case fork2 of
          Fork_failed e redo cont \<Rightarrow> (Returns 0, [Close_fds], info1)
        | Fork_ok pid2 \<Rightarrow>
            let info2 = info1\<lparr>pid := pid2\<rparr> in
            (case sys_read read_err avail 0 of
               Read_blocks \<Rightarrow> (Blocked, [Setpgid pid2 0], info2)
             | Read_returns r \<Rightarrow>
                 if r < 1
                 then (Killed_by SIGKILL, [Setpgid pid2 0, Kill self SIGKILL],
                       info2\<lparr>t_start := now\<rparr>)
                 else (Exits 0, [Setpgid pid2 0, Close_fds], info2)))"

text \<open>
  What the children of one Variant B trial leave in the shared block: child A's
  writes, and the handler's in child B when the kernel sends SIGHUP to the stopped
  child B after child A was killed (\<open>hup = Some now\<close>). Child B itself only stores
  its own pid, the value child A stores as \<open>pid2\<close>.
\<close>

definition process_group_children ::
  "bool \<Rightarrow> fork_res \<Rightarrow> bool \<Rightarrow> nat \<Rightarrow> real \<Rightarrow> int \<Rightarrow> real option \<Rightarrow>
   stress_sighup_info_t \<Rightarrow> stress_sighup_info_t" where
  "process_group_children pipe_ok fork2 read_err avail now self hup info =
     (case process_group_child_A pipe_ok fork2 read_err avail now self info of
        (Killed_by sig, evs, info') \<Rightarrow>
          (case hup of None \<Rightarrow> info' | Some t \<Rightarrow> handler_body t info')
      | (e, evs, info') \<Rightarrow> info')"

text \<open>Variant B, the parent from \<open>rewait:\<close> on.\<close>

fun process_group_rewait ::
  "wait_res list \<Rightarrow> stress_sighup_info_t \<Rightarrow> (int \<times> sighup_event list) option" where
  "process_group_rewait [] info = None"
| "process_group_rewait (Wait_err e # ws) info =
     (if e = EINTR then process_group_rewait ws info
      else Some (EXIT_FAILURE,
        Pr_fail_waitpid e # (if pid info \<noteq> 0 then [Kill_pid_wait (pid info)] else [])))"
| "process_group_rewait (Wait_ok # ws) info =
     Some (0, if pid info \<noteq> 0 then [Kill_pid_wait (pid info)] else [])"

text \<open>The parent from \<open>again:\<close> on; \<open>children\<close> is what the children write to the block.\<close>

fun process_group_again ::
  "fork_res list \<Rightarrow> (stress_sighup_info_t \<Rightarrow> stress_sighup_info_t) \<Rightarrow> wait_res list \<Rightarrow>
   stress_sighup_info_t \<Rightarrow> (int \<times> sighup_event list \<times> stress_sighup_info_t) option" where
  "process_group_again [] children ws info = None"
| "process_group_again (Fork_failed e redo cont # fs) children ws info =
     (if redo then process_group_again fs children ws info
      else if \<not> cont then Some (0, [], info)
      else Some (EXIT_FAILURE, [Pr_fail_fork e], info))"
| "process_group_again (Fork_ok p # fs) children ws info =
     (let info' = children info
      in case process_group_rewait ws info' of
           None \<Rightarrow> None
         | Some (rc, evs) \<Rightarrow> Some (rc, evs, info'))"

text \<open>\<open>stress_sighup_process_group\<close> as the parent sees it: it clears \<open>pid\<close> first.\<close>

definition stress_sighup_process_group ::
  "fork_res list \<Rightarrow> (stress_sighup_info_t \<Rightarrow> stress_sighup_info_t) \<Rightarrow> wait_res list \<Rightarrow>
   stress_sighup_info_t \<Rightarrow> (int \<times> sighup_event list \<times> stress_sighup_info_t) option" where
  "stress_sighup_process_group fs children ws info =
     process_group_again fs children ws (info\<lparr>pid := 0\<rparr>)"

section \<open>stress-schedpolicy.c: platform, host and state\<close>

text \<open>
  The table \<open>policies[]\<close> is assembled by the preprocessor from the \<open>SCHED_*\<close>
  constants the platform's headers define, in the order IDLE, FIFO, RR, OTHER, BATCH.
  A platform gives each constant its number, or \<open>None\<close> where it is not defined,
  and says which of the optional blocks of the loop body are compiled in.
\<close>

record platform =
  sched_idle :: "int option"
  sched_fifo :: "int option"
  sched_rr :: "int option"
  sched_other :: "int option"
  sched_batch :: "int option"
  have_sched_rr_get_interval :: bool
  posix_priority_scheduling :: bool
  have_sched_attr :: bool

definition defined :: "int option \<Rightarrow> int list" where
  "defined c = (case c of None \<Rightarrow> [] | Some v \<Rightarrow> [v])"

definition policies :: "platform \<Rightarrow> int list" where
  "policies pf =
     defined (sched_idle pf) @ defined (sched_fifo pf) @ defined (sched_rr pf) @
     defined (sched_other pf) @ defined (sched_batch pf)"

text \<open>Linux with glibc: every policy is defined, and all three optional blocks exist.\<close>

definition linux :: platform where
  "linux = \<lparr>sched_idle = Some 5, sched_fifo = Some 1, sched_rr = Some 2,
     sched_other = Some 0, sched_batch = Some 3,
     have_sched_rr_get_interval = True, posix_priority_scheduling = True,
     have_sched_attr = True\<rparr>"

text \<open>The fields of \<open>args_t\<close> the function reads.\<close>

record args_t =
  args_instance :: nat
  args_pid :: int

text \<open>
  What the host answers during one pass through the loop body. A system call answers
  with its return value and the \<open>errno\<close> it sets when that value is negative.
  Priorities are C \<open>int\<close>s that enter unsigned arithmetic with \<open>mwc32()\<close>, and the
  utilization clamps are \<open>uint32_t\<close>: both are 32-bit words.
\<close>

type_synonym sysret = "int \<times> int"

record host =
  mwc1 :: bool
  mwc32 :: "32 word"
  rr_get_interval :: sysret
  priority_min :: "32 word"
  priority_max :: "32 word"
  setscheduler :: sysret
  getscheduler :: sysret
  getparam :: sysret
  getparam_priority :: "32 word"
  setparam :: sysret
  getattr :: sysret
  attr_util_min :: "32 word"
  attr_util_max :: "32 word"
  setattr :: sysret
  keep_stressing :: bool

text \<open>
  The calls the function makes and the messages it prints, with the arguments that
  matter: the argument of \<open>sched_get_priority_min/max\<close>; pid, policy and priority of
  \<open>sched_setscheduler\<close>; pid, \<open>sched_util_min\<close> and \<open>sched_util_max\<close> of
  \<open>shim_sched_setattr\<close>.
\<close>

datatype sp_event =
    Pr_inf_no_policies
  | Pr_err_invalid_range int "32 word" "32 word"
  | Pr_fail_setscheduler int int
  | Pr_fail_getscheduler int int int
  | Pr_fail_err string
  | Sched_rr_get_interval int
  | Sched_get_priority_min int
  | Sched_get_priority_max int
  | Sched_setscheduler int int "32 word"
  | Sched_getscheduler int
  | Sched_getparam int
  | Sched_setparam int "32 word"
  | Sched_getattr int
  | Sched_setattr int "32 word" "32 word"
  | Sched_yield
  | Inc_counter

text \<open>
  The locals that live across iterations, \<open>errno\<close>, and the trace. \<open>policy\<close> is a C
  \<open>int\<close> that stays within the table, so it is a \<open>nat\<close>; \<open>counter\<close> is a C
  \<open>int\<close> that is only ever incremented and reset, a 32-bit word compared as signed.
\<close>

record sp_state =
  policy :: nat
  sched_util_min :: "32 word"
  sched_util_max :: "32 word"
  sched_util_max_value :: "32 word"
  counter :: "32 word"
  errno :: int
  trace :: "sp_event list"

text \<open>The locals at function entry; \<open>~0\<close> as \<open>uint32_t\<close> is \<open>0xFFFFFFFF\<close>.\<close>

definition init_state :: sp_state where
  "init_state = \<lparr>policy = 0, sched_util_min = 4294967295, sched_util_max = 0,
     sched_util_max_value = 0, counter = 0, errno = 0, trace = []\<rparr>"

definition emit :: "sp_event list \<Rightarrow> sp_state \<Rightarrow> sp_state" where
  "emit es s = s\<lparr>trace := trace s @ es\<rparr>"

definition syscall :: "sysret \<Rightarrow> sp_state \<Rightarrow> sp_state" where
  "syscall r s = (if fst r < 0 then s\<lparr>errno := snd r\<rparr> else s)"

section \<open>stress-schedpolicy.c: the loop body\<close>

text \<open>
  In the functions below \<open>tpid\<close> is the local \<open>pid\<close> of the C function, the
  target of the calls: 0 or the worker's own pid.
\<close>

text \<open>
  Line 128: \<open>(mwc32() % (rng_prio)) + min_prio\<close> with \<open>rng_prio = max_prio - min_prio\<close>.
  \<open>mwc32()\<close> is a \<open>uint32_t\<close>, so the remainder and the sum are computed on unsigned
  32-bit values and the result is stored back into an \<open>int\<close>: word arithmetic, read
  as signed (\<open>sint\<close>, \<open><s\<close>) where the C value is an \<open>int\<close>.
\<close>

definition sched_priority :: "32 word \<Rightarrow> 32 word \<Rightarrow> 32 word \<Rightarrow> 32 word" where
  "sched_priority r min_prio max_prio = (r mod (max_prio - min_prio)) + min_prio"

text \<open>
  The \<open>switch\<close> ends either in \<open>continue\<close>, which goes straight to the loop's
  condition, or after it with a value of \<open>ret\<close>.
\<close>

datatype switch_result = Skip_trial sp_state | Ret int sp_state

text \<open>
  \<open>case SCHED_FIFO\<close>, also reached from \<open>case SCHED_RR\<close> with the \<open>ret\<close> of
  \<open>sched_rr_get_interval\<close>. The range is queried with \<open>policy\<close>, the index into the
  table; \<open>sched_setscheduler\<close> gets \<open>new_policy\<close>. A range query that answers -1
  has failed and has set \<open>errno\<close> to \<open>EINVAL\<close>, its only error.
\<close>

definition realtime_trial :: "int \<Rightarrow> int \<Rightarrow> int \<Rightarrow> host \<Rightarrow> sp_state \<Rightarrow> switch_result" where
  "realtime_trial ret tpid new_policy h s =
     (let min_prio = priority_min h;
          max_prio = priority_max h;
          s1 = emit [Sched_get_priority_min (int (policy s)),
                     Sched_get_priority_max (int (policy s))] s
      in if min_prio = - 1 \<or> max_prio = - 1 then Skip_trial (s1\<lparr>errno := EINVAL\<rparr>)
         else
           let rng_prio = max_prio - min_prio in
           if rng_prio = 0
           then Ret ret (emit [Pr_err_invalid_range new_policy min_prio max_prio] s1)
           else
             let prio = sched_priority (mwc32 h) min_prio max_prio
             in Ret (fst (setscheduler h))
                  (syscall (setscheduler h) (emit [Sched_setscheduler tpid new_policy prio] s1)))"

definition switch_policy :: "platform \<Rightarrow> int \<Rightarrow> int \<Rightarrow> host \<Rightarrow> sp_state \<Rightarrow> switch_result" where
  "switch_policy pf tpid new_policy h s =
     (if Some new_policy = sched_idle pf \<or> Some new_policy = sched_batch pf \<or>
         Some new_policy = sched_other pf
      then Ret (fst (setscheduler h))
             (syscall (setscheduler h) (emit [Sched_setscheduler tpid new_policy 0] s))
      else if Some new_policy = sched_rr pf then
        (if have_sched_rr_get_interval pf
         then realtime_trial (fst (rr_get_interval h)) tpid new_policy h
                (syscall (rr_get_interval h) (emit [Sched_rr_get_interval tpid] s))
         else realtime_trial 0 tpid new_policy h s)
      else if Some new_policy = sched_fifo pf then realtime_trial 0 tpid new_policy h s
      else Ret 0 s)"

text \<open>
  Lines 136 to 160. \<open>policies[policy]\<close> of line 153 is \<open>new_policy\<close>: \<open>policy\<close> has
  not changed since line 79.
\<close>

definition check_policy :: "int \<Rightarrow> int \<Rightarrow> int \<Rightarrow> host \<Rightarrow> sp_state \<Rightarrow> sp_state" where
  "check_policy ret tpid new_policy h s =
     (if ret < 0 then
        (if errno s \<noteq> EPERM \<and> errno s \<noteq> EINVAL
         then emit [Pr_fail_setscheduler (errno s) new_policy] s
         else s)
      else
        let s1 = syscall (getscheduler h) (emit [Sched_getscheduler tpid] s);
            r = fst (getscheduler h)
        in if r < 0 then emit [Pr_fail_err ''sched_getscheduler''] s1
           else if r \<noteq> new_policy then emit [Pr_fail_getscheduler tpid new_policy r] s1
           else s1)"

text \<open>Lines 161 to 170, compiled in with \<open>_POSIX_PRIORITY_SCHEDULING\<close>.\<close>

definition param_roundtrip :: "platform \<Rightarrow> int \<Rightarrow> host \<Rightarrow> sp_state \<Rightarrow> sp_state" where
  "param_roundtrip pf tpid h s =
     (if \<not> posix_priority_scheduling pf then s
      else
        let s1 = syscall (getparam h) (emit [Sched_getparam tpid] s);
            s2 = (if fst (getparam h) < 0 \<and> errno s1 \<noteq> EINVAL \<and> errno s1 \<noteq> EPERM
                  then emit [Pr_fail_err ''sched_getparam failed''] s1 else s1);
            prio = (if fst (getparam h) < 0 then 0 else getparam_priority h);
            s3 = syscall (setparam h) (emit [Sched_setparam tpid prio] s2)
        in if fst (setparam h) < 0 \<and> errno s3 \<noteq> EINVAL \<and> errno s3 \<noteq> EPERM
           then emit [Pr_fail_err ''sched_setparam''] s3 else s3)"

text \<open>Lines 186 to 204 on the locals: \<open>attr_min\<close>, \<open>attr_max\<close> are the clamps just read.\<close>

definition clamp_update :: "32 word \<Rightarrow> 32 word \<Rightarrow> sp_state \<Rightarrow> sp_state" where
  "clamp_update attr_min attr_max s =
     (if attr_max \<noteq> 0 then
        let s1 = (if sched_util_min s > attr_min then s\<lparr>sched_util_min := attr_min\<rparr> else s);
            s2 = (if sched_util_max s1 < attr_max then s1\<lparr>sched_util_max := attr_max\<rparr> else s1);
            s3 = (if sched_util_min s2 > sched_util_max s2
                  then s2\<lparr>sched_util_min := sched_util_max s2\<rparr> else s2)
        in if sched_util_max_value s3 = 0
           then s3\<lparr>sched_util_max_value := sched_util_max s3\<rparr> else s3
      else s)"

text \<open>Lines 218 to 223: \<open>counter++\<close> is evaluated in every pass, before the other tests.\<close>

definition ratchet :: "sp_state \<Rightarrow> sp_state" where
  "ratchet s =
     (let c = counter s;
          s1 = s\<lparr>counter := c + 1\<rparr>
      in if 256 <s c \<and> sched_util_max_value s1 > 0 \<and>
            sched_util_max_value s1 > sched_util_min s1
         then s1\<lparr>sched_util_max_value := sched_util_max_value s1 - 1, counter := 0\<rparr>
         else s1)"

text \<open>
  Lines 172 to 224, compiled in with \<open>HAVE_SCHED_GETATTR\<close> and
  \<open>HAVE_SCHED_SETATTR\<close>. \<open>attr\<close> is zeroed before \<open>shim_sched_getattr\<close>, which fills
  it when it succeeds.
\<close>

definition attr_clamp :: "platform \<Rightarrow> int \<Rightarrow> host \<Rightarrow> sp_state \<Rightarrow> sp_state" where
  "attr_clamp pf tpid h s =
     (if \<not> have_sched_attr pf then s
      else
        let s1 = syscall (getattr h) (emit [Sched_getattr tpid] s);
            s2 = (if fst (getattr h) < 0 \<and> errno s1 \<noteq> ENOSYS
                  then emit [Pr_fail_err ''sched_getattr''] s1 else s1);
            a_min = (if fst (getattr h) < 0 then 0 else attr_util_min h);
            a_max = (if fst (getattr h) < 0 then 0 else attr_util_max h);
            s3 = clamp_update a_min a_max s2;
            set_max = (if a_max \<noteq> 0 then sched_util_max_value s3 else a_max);
            s4 = syscall (setattr h) (emit [Sched_setattr tpid a_min set_max] s3);
            s5 = (if fst (setattr h) < 0 \<and> errno s4 \<noteq> ENOSYS
                  then emit [Pr_fail_err ''sched_getattr''] s4 else s4)
        in ratchet s5)"

text \<open>One pass through the body of the \<open>do ... while\<close> loop.\<close>

definition iteration :: "platform \<Rightarrow> args_t \<Rightarrow> host \<Rightarrow> sp_state \<Rightarrow> sp_state" where
  "iteration pf args h s =
     (let new_policy = policies pf ! policy s;
          tpid = (if mwc1 h then 0 else args_pid args)
      in case switch_policy pf tpid new_policy h s of
           Skip_trial s1 \<Rightarrow> s1
         | Ret ret s1 \<Rightarrow>
             let s2 = check_policy ret tpid new_policy h s1;
                 s3 = param_roundtrip pf tpid h s2;
                 s4 = attr_clamp pf tpid h s3;
                 s5 = emit [Sched_yield] s4;
                 s6 = s5\<lparr>policy := (policy s5 + 1) mod length (policies pf)\<rparr>
             in emit [Inc_counter] s6)"

section \<open>stress-schedpolicy.c: the loop and the entry point\<close>

text \<open>
  The loop runs its body once for each answer of the host and looks at that answer's
  \<open>keep_stressing()\<close> afterwards. When the answers run out before \<open>keep_stressing()\<close>
  is false, the loop has not ended: \<open>None\<close>.
\<close>

fun do_while :: "platform \<Rightarrow> args_t \<Rightarrow> host list \<Rightarrow> sp_state \<Rightarrow> sp_state option" where
  "do_while pf args [] s = None"
| "do_while pf args (h # hs) s =
     (let s' = iteration pf args h s
      in if keep_stressing h then do_while pf args hs s' else Some s')"

definition stress_schedpolicy ::
  "platform \<Rightarrow> args_t \<Rightarrow> host list \<Rightarrow> (int \<times> sp_state) option" where
  "stress_schedpolicy pf args hs =
     (if length (policies pf) = 0 then
        Some (EXIT_NOT_IMPLEMENTED,
              if args_instance args = 0 then emit [Pr_inf_no_policies] init_state
              else init_state)
      else
        case do_while pf args hs init_state of
          None \<Rightarrow> None
        | Some s \<Rightarrow> Some (EXIT_SUCCESS, s))"

text \<open>The bodies of the loop one after the other, without the loop's condition.\<close>

definition iterations :: "platform \<Rightarrow> args_t \<Rightarrow> host list \<Rightarrow> sp_state \<Rightarrow> sp_state" where
  "iterations pf args hs s = foldl (\<lambda>s h. iteration pf args h s) s hs"

section \<open>Vocabulary of the properties\<close>

text \<open>
  The definitions of this section are not code of the stressors: they name the
  conditions and projections the theorems speak about.
\<close>

text \<open>
  \<open>no_skip\<close>: the host reports a priority range, so no trial ends in \<open>continue\<close>.
  \<open>clamp_supported\<close>: \<open>shim_sched_getattr\<close> succeeds and reports a non-zero
  \<open>sched_util_max\<close>. \<open>clamp_of\<close>: the four locals of the clamp ratchet.
  \<open>clamp_step\<close>: what one pass does to them when the clamps are supported.
\<close>

definition no_skip :: "host \<Rightarrow> bool" where
  "no_skip h = (priority_min h \<noteq> - 1 \<and> priority_max h \<noteq> - 1)"




fun switch_state :: "switch_result \<Rightarrow> sp_state" where
  "switch_state (Skip_trial s) = s"
| "switch_state (Ret r s) = s"

fun skipped :: "switch_result \<Rightarrow> bool" where
  "skipped (Skip_trial s) = True"
| "skipped (Ret r s) = False"




text \<open>A host whose calls all succeed, with the Linux realtime range 1..99 and clamps 0..1024.\<close>

definition quiet_host :: host where
  "quiet_host = \<lparr>mwc1 = True, mwc32 = 0, rr_get_interval = (0, 0),
     priority_min = 1, priority_max = 99, setscheduler = (0, 0), getscheduler = (0, 0),
     getparam = (0, 0), getparam_priority = 0, setparam = (0, 0), getattr = (0, 0),
     attr_util_min = 0, attr_util_max = 1024, setattr = (0, 0), keep_stressing = False\<rparr>"

text \<open>
  Linux constants with \<open>SCHED_IDLE\<close> not defined by the headers: the table starts with
  \<open>SCHED_FIFO\<close>.
\<close>

definition linux_no_idle :: platform where
  "linux_no_idle = linux\<lparr>sched_idle := None\<rparr>"

text \<open>A platform whose headers define no policy at all.\<close>

definition no_policy_platform :: platform where
  "no_policy_platform = linux\<lparr>sched_idle := None, sched_fifo := None, sched_rr := None,
     sched_other := None, sched_batch := None\<rparr>"

section \<open>Properties of the SIGHUP handler\<close>

lemma handler_body_signalled: "signalled (handler_body now info)"
  by (simp add: handler_body_def Let_def)

lemma handler_body_pid: "pid (handler_body now info) = pid info"
  by (simp add: handler_body_def Let_def)

lemma handler_body_t_start: "t_start (handler_body now info) = t_start info"
  by (simp add: handler_body_def Let_def)

lemma handler_body_latency:
  "latency (handler_body now info) =
     (if t_start info > 0 \<and> double_round (now - t_start info) > 0
      then double_round (latency info + double_round (now - t_start info)) else latency info)"
  by (simp add: handler_body_def Let_def)

lemma handler_body_count:
  "count (handler_body now info) =
     (if t_start info > 0 \<and> double_round (now - t_start info) > 0
      then double_round (count info + 1) else count info)"
  by (simp add: handler_body_def Let_def)




lemma deliveries_signalled:
  "ds \<noteq> [] \<Longrightarrow> signalled (deliveries ds info)"
proof (induction ds info rule: deliveries.induct)
  case (1 info)
  then show ?case by simp
next
  case (2 ts now ds info)
  show ?case
  proof (cases ds)
    case Nil
    then show ?thesis by (simp add: handler_body_signalled)
  next
    case (Cons d ds')
    with 2 show ?thesis by simp
  qed
qed

subsection \<open>Rounding to double\<close>

lemma round_half_even_of_int: "round_half_even (of_int z) = z"
  by (simp add: round_half_even_def)

lemma binade:
  fixes x :: real
  assumes "0 < x" "2 powi k \<le> x" "x < 2 powi (k + 1)"
  shows "\<lfloor>log 2 \<bar>x\<bar>\<rfloor> = k"
proof -
  have a: "(2::real) powr of_int k = 2 powi k"
    using powr_real_of_int' [of 2 k] by simp
  have b: "(2::real) powr (of_int k + 1) = 2 powi (k + 1)"
    using powr_real_of_int' [of 2 "k + 1"] by simp
  have "\<lfloor>log 2 x\<rfloor> = k"
    using assms by (subst floor_log_eq_powr_iff) (simp_all add: a b)
  then show ?thesis using assms(1) by simp
qed

lemma double_round_in_binade:
  fixes x :: real
  assumes "0 < x" "2 powi k \<le> x" "x < 2 powi (k + 1)" "- 1022 \<le> k"
  shows "double_round x = 2 powi (k - 52) * of_int (round_half_even (x / 2 powi (k - 52)))"
  using assms binade [OF assms(1-3)] by (simp add: double_round_def Let_def max_def)

lemma double_round_exact:
  fixes x :: real
  assumes "0 < x" "2 powi k \<le> x" "x < 2 powi (k + 1)" "- 1022 \<le> k"
    and "x / 2 powi (k - 52) = of_int z"
  shows "double_round x = x"
proof -
  have "double_round x = 2 powi (k - 52) * of_int z"
    using double_round_in_binade [OF assms(1-4)] by (simp add: assms(5) round_half_even_of_int)
  also have "\<dots> = 2 powi (k - 52) * (x / 2 powi (k - 52))" by (simp add: assms(5))
  also have "\<dots> = x" by simp
  finally show ?thesis .
qed

text \<open>Every whole number up to \<open>2 ^ 53\<close> is a double.\<close>

lemma double_round_count:
  fixes n :: nat
  assumes "n \<le> 2 ^ 53"
  shows "double_round (real n) = real n"
proof (cases "n = 0")
  case True
  then show ?thesis by (simp add: double_round_def)
next
  case False
  then have pos: "0 < real n" by simp
  define k where "k = \<lfloor>log 2 (real n)\<rfloor>"
  have a: "(2::real) powr of_int k = 2 powi k"
    using powr_real_of_int' [of 2 k] by simp
  have b: "(2::real) powr (of_int k + 1) = 2 powi (k + 1)"
    using powr_real_of_int' [of 2 "k + 1"] by simp
  have "2 powr of_int k \<le> real n \<and> real n < 2 powr (of_int k + 1)"
    using floor_log_eq_powr_iff [of "real n" 2 k] pos by (simp add: k_def)
  then have lo: "2 powi k \<le> real n" and hi: "real n < 2 powi (k + 1)"
    by (simp_all add: a b)
  have top: "real n \<le> 2 ^ 53"
    using assms by (metis of_nat_le_iff of_nat_numeral of_nat_power)
  have k0: "0 \<le> k"
  proof (rule ccontr)
    assume "\<not> 0 \<le> k"
    then have "k + 1 \<le> 0" by simp
    then have "(2::real) powi (k + 1) \<le> 2 powi 0"
      by (intro power_int_increasing) simp_all
    with hi have "real n < 1" by simp
    with False show False by simp
  qed
  have k53: "k \<le> 53"
  proof (rule ccontr)
    assume "\<not> k \<le> 53"
    then have "54 \<le> k" by simp
    then have "(2::real) powi 54 \<le> 2 powi k"
      by (intro power_int_increasing) simp_all
    with lo have "(2::real) ^ 54 \<le> real n" by simp
    with top show False by simp
  qed
  have "\<exists>z. real n / 2 powi (k - 52) = of_int z"
  proof (cases "k \<le> 52")
    case True
    then have "(2::real) powi (52 - k) = 2 ^ nat (52 - k)"
      by (simp add: power_int_def)
    moreover have "real n / 2 powi (k - 52) = real n * 2 powi (52 - k)"
      using power_int_minus [of "2::real" "k - 52"] by (simp add: field_simps)
    ultimately have "real n / 2 powi (k - 52) = of_int (int n * 2 ^ nat (52 - k))"
      by simp
    then show ?thesis ..
  next
    case False
    with k53 have k: "k = 53" by simp
    have "(2::real) ^ 53 \<le> real n" using lo by (simp add: k)
    with top have "real n = 2 ^ 53" by simp
    then have "real n / 2 powi (k - 52) = of_int (2 ^ 52)" by (simp add: k)
    then show ?thesis ..
  qed
  then obtain z where z: "real n / 2 powi (k - 52) = of_int z" ..
  from k0 have "- 1022 \<le> k" by simp
  then show ?thesis by (rule double_round_exact [OF pos lo hi _ z])
qed

lemma double_round_numeral:
  "numeral w \<le> (2 ^ 53 :: nat) \<Longrightarrow> double_round (numeral w) = numeral w"
  using double_round_count [of "numeral w"] by simp




text \<open>
  Claim C8. Every invocation of the handler on the mapped block leaves both
  accumulators as they were unless \<open>t_start > 0\<close> when the signal lands: a change of
  \<open>latency\<close> or \<open>count\<close> implies \<open>t_start > 0\<close>, and with \<open>t_start = 0\<close> (no
  active trial) neither changes. With nothing mapped the handler does nothing.
\<close>

theorem handler_accumulates_only_in_trial:
  "stress_sighup_handler now None = None \<and>
   (\<exists>info'. stress_sighup_handler now (Some info) = Some info' \<and>
      ((latency info' \<noteq> latency info \<or> count info' \<noteq> count info) \<longrightarrow> 0 < t_start info) \<and>
      (t_start info = 0 \<longrightarrow> latency info' = latency info \<and> count info' = count info))"
  by (simp add: stress_sighup_handler_def handler_body_latency handler_body_count)

theorem handler_accumulates_only_in_trial_witness:
  "(\<exists>info'. stress_sighup_handler 7 (Some \<lparr>signalled = False, pid = 0, count = 2, t_start = 0, latency = 5\<rparr>)
       = Some info' \<and> latency info' = 5 \<and> count info' = 2) \<and>
   (\<exists>info'. stress_sighup_handler 7 (Some \<lparr>signalled = False, pid = 0, count = 2, t_start = 3, latency = 5\<rparr>)
       = Some info' \<and> latency info' = 9 \<and> count info' = 3)"
  using handler_accumulates_only_in_trial
    [of 7 "\<lparr>signalled = False, pid = 0, count = 2, t_start = 0, latency = 5\<rparr>"]
  by (simp add: stress_sighup_handler_def handler_body_def Let_def double_round_numeral)




section \<open>Properties of the two trial variants\<close>

lemma raise_signal_rewait_eintr:
  "raise_signal_rewait (replicate n (Wait_err EINTR) @ ws) info = raise_signal_rewait ws info"
  by (induction n) simp_all

lemma process_group_rewait_eintr:
  "process_group_rewait (replicate n (Wait_err EINTR) @ ws) info = process_group_rewait ws info"
  by (induction n) simp_all

lemma raise_signal_child_signalled:
  "signalled (raise_signal_child t0 hup info) \<longleftrightarrow> signalled info \<or> hup \<noteq> None"
  by (cases hup) (simp_all add: raise_signal_child_def Let_def handler_body_signalled)

lemma children_pid:
  "pid (process_group_children True (Fork_ok pid2) read_err avail now self hup info) = pid2"
  by (cases hup)
     (simp_all add: process_group_children_def process_group_child_A_def sys_read_def
        Let_def handler_body_pid)

text \<open>
  Claim C5. In Variant A, after a successful fork, the parent's wait is retried as long
  as it fails with \<open>EINTR\<close> (any number \<open>n\<close> of interrupted waits changes nothing, and
  with interrupted waits only the parent is still waiting). When the wait completes,
  the trial returns \<open>EXIT_FAILURE\<close> with the message that the handler did not get
  called exactly when \<open>signalled\<close> is still false, and 0 otherwise. A wait that fails
  with any other \<open>errno\<close> makes the trial return \<open>EXIT_FAILURE\<close> with the waitpid
  message. The flag the parent reads is set exactly when it was set before or the
  handler ran in the child.
\<close>

theorem raise_signal_wait_retried_and_checked:
  "stress_sighup_raise_signal (Fork_ok p # fs) t0 hup (replicate n (Wait_err EINTR)) info = None \<and>
   stress_sighup_raise_signal (Fork_ok p # fs) t0 hup
       (replicate n (Wait_err EINTR) @ Wait_ok # ws) info =
     (if signalled (raise_signal_child t0 hup info)
      then Some (0, [], raise_signal_child t0 hup info)
      else Some (EXIT_FAILURE, [Pr_fail_handler_not_called], raise_signal_child t0 hup info)) \<and>
   (e \<noteq> EINTR \<longrightarrow>
      stress_sighup_raise_signal (Fork_ok p # fs) t0 hup
          (replicate n (Wait_err EINTR) @ Wait_err e # ws) info =
        Some (EXIT_FAILURE, [Pr_fail_waitpid e], raise_signal_child t0 hup info)) \<and>
   (signalled (raise_signal_child t0 hup info) \<longleftrightarrow> signalled info \<or> hup \<noteq> None)"
  using raise_signal_rewait_eintr [of n "[]"]
  by (simp add: raise_signal_rewait_eintr raise_signal_child_signalled Let_def)

theorem raise_signal_wait_retried_and_checked_witness:
  "stress_sighup_raise_signal [Fork_ok 42] 10 None [Wait_err EINTR, Wait_err EINTR, Wait_ok]
     \<lparr>signalled = False, pid = 0, count = 0, t_start = 0, latency = 0\<rparr> =
     Some (EXIT_FAILURE, [Pr_fail_handler_not_called],
       \<lparr>signalled = False, pid = 0, count = 0, t_start = 10, latency = 0\<rparr>) \<and>
   stress_sighup_raise_signal [Fork_ok 42] 10 None [Wait_err EINTR, Wait_err EINTR, Wait_err 10]
     \<lparr>signalled = False, pid = 0, count = 0, t_start = 0, latency = 0\<rparr> =
     Some (EXIT_FAILURE, [Pr_fail_waitpid 10],
       \<lparr>signalled = False, pid = 0, count = 0, t_start = 10, latency = 0\<rparr>)"
  using raise_signal_wait_retried_and_checked
    [of 42 "[]" 10 None 2 "\<lparr>signalled = False, pid = 0, count = 0, t_start = 0, latency = 0\<rparr>" "[]" 10]
  by (simp add: EINTR_def raise_signal_child_def numeral_2_eq_2)

text \<open>
  Claim C6. In Variant B, after child A was forked, the parent's wait is retried on
  \<open>EINTR\<close> and both ways out of it, the wait that succeeds (return value 0) and the
  wait that fails with another \<open>errno\<close> (return value \<open>EXIT_FAILURE\<close>), call
  \<open>stress_kill_pid_wait\<close> on the pid recorded in the shared block exactly when that pid
  is not 0. When child A created the pipe and forked child B as \<open>pid2\<close>, the recorded
  pid is \<open>pid2\<close>, whether or not the kernel delivered SIGHUP to child B.
\<close>

theorem process_group_kills_recorded_child:
  "stress_sighup_process_group (Fork_ok p # fs) children
       (replicate n (Wait_err EINTR) @ Wait_ok # ws) info =
     Some (0,
       (if pid (children (info\<lparr>pid := 0\<rparr>)) \<noteq> 0
        then [Kill_pid_wait (pid (children (info\<lparr>pid := 0\<rparr>)))] else []),
       children (info\<lparr>pid := 0\<rparr>)) \<and>
   (e \<noteq> EINTR \<longrightarrow>
      stress_sighup_process_group (Fork_ok p # fs) children
          (replicate n (Wait_err EINTR) @ Wait_err e # ws) info =
        Some (EXIT_FAILURE,
          Pr_fail_waitpid e #
            (if pid (children (info\<lparr>pid := 0\<rparr>)) \<noteq> 0
             then [Kill_pid_wait (pid (children (info\<lparr>pid := 0\<rparr>)))] else []),
          children (info\<lparr>pid := 0\<rparr>))) \<and>
   pid (process_group_children True (Fork_ok pid2) read_err avail now self hup (info\<lparr>pid := 0\<rparr>)) = pid2"
  by (simp add: stress_sighup_process_group_def process_group_rewait_eintr children_pid Let_def)

theorem process_group_kills_recorded_child_witness:
  "stress_sighup_process_group [Fork_ok 42]
       (process_group_children True (Fork_ok 43) False 1 10 42 None)
       [Wait_err EINTR, Wait_err 10]
       \<lparr>signalled = False, pid = 7, count = 0, t_start = 0, latency = 0\<rparr> =
     Some (EXIT_FAILURE, [Pr_fail_waitpid 10, Kill_pid_wait 43],
        \<lparr>signalled = False, pid = 43, count = 0, t_start = 10, latency = 0\<rparr>)"
  using process_group_kills_recorded_child
    [of 42 "[]" "process_group_children True (Fork_ok 43) False 1 10 42 None" 1 "[]"
        "\<lparr>signalled = False, pid = 7, count = 0, t_start = 0, latency = 0\<rparr>" 10]
  by (simp add: EINTR_def process_group_children_def process_group_child_A_def sys_read_def Let_def)

text \<open>
  The host's \<open>read\<close> asked for zero bytes answers at once, with 0 or with -1, whatever
  the pipe holds.
\<close>

lemma sys_read_zero: "sys_read read_err avail 0 = Read_returns (if read_err then - 1 else 0)"
  by (simp add: sys_read_def)

text \<open>
  Claim C7, as amended. A child A that has its pipe and has forked child B asks
  \<open>read\<close> for zero bytes. Whatever the pipe holds (\<open>avail\<close>, so whether or not child
  B has written its byte) and whether or not the host reports an error, child A is not
  blocked and does not take the \<open>_exit\<close> path: it stores the clock in \<open>t_start\<close> and
  sends itself SIGKILL. A child A whose \<open>pipe()\<close> fails returns 0 and leaves the block
  as it was; a child A whose second \<open>fork()\<close> fails has set \<open>t_start\<close> to 0, closes
  the pipe and returns 0. In both cases it stores no clock value and sends no signal.
\<close>

theorem child_A_kills_itself_once_child_B_exists:
  "process_group_child_A True (Fork_ok pid2) read_err avail now self info =
     (Killed_by SIGKILL, [Setpgid pid2 0, Kill self SIGKILL],
      info\<lparr>t_start := now, pid := pid2\<rparr>) \<and>
   process_group_child_A False fork2 read_err avail now self info = (Returns 0, [], info) \<and>
   process_group_child_A True (Fork_failed e redo cont) read_err avail now self info =
     (Returns 0, [Close_fds], info\<lparr>t_start := 0\<rparr>)"
  by (simp add: sys_read_def process_group_child_A_def Let_def)

text \<open>
  The claim as stated fails: in a Variant B trial whose \<open>pipe()\<close> fails, child A
  returns 0 at once; \<open>t_start\<close> is not set to the clock and no SIGKILL is sent.
\<close>

theorem child_A_without_pipe_returns:
  "process_group_child_A False (Fork_ok 43) False 1 10 42
       \<lparr>signalled = False, pid = 0, count = 0, t_start = 0, latency = 0\<rparr> =
     (Returns 0, [], \<lparr>signalled = False, pid = 0, count = 0, t_start = 0, latency = 0\<rparr>)"
  by (simp add: process_group_child_A_def)

section \<open>Properties of the priority sample\<close>

lemma rng_uint:
  fixes lo hi :: "32 word"
  assumes "lo <s hi"
  shows "uint (hi - lo) = sint hi - sint lo"
proof -
  have b: "- (2 ^ 31) \<le> sint lo" "sint lo < 2 ^ 31" "- (2 ^ 31) \<le> sint hi" "sint hi < 2 ^ 31"
    using sint_ge [of lo] sint_lt [of lo] sint_ge [of hi] sint_lt [of hi] by simp_all
  have lt: "sint lo < sint hi" using assms by (simp add: word_sless_alt)
  have "hi - lo = word_of_int (sint hi - sint lo)" by simp
  then have "uint (hi - lo) = take_bit 32 (sint hi - sint lo)"
    by (simp only: uint_word_of_int_eq) simp
  also have "\<dots> = sint hi - sint lo"
    using b lt by (simp add: take_bit_int_eq_self)
  finally show ?thesis .
qed

lemma sint_offset:
  fixes lo k :: "32 word"
  assumes "sint lo + uint k < 2 ^ 31"
  shows "sint (k + lo) = sint lo + uint k"
proof -
  have b: "- (2 ^ 31) \<le> sint lo" using sint_ge [of lo] by simp
  have "k + lo = word_of_int (uint k + sint lo)" by simp
  then have "sint (k + lo) = signed_take_bit 31 (uint k + sint lo)"
    by (simp only: sint_sbintrunc') simp
  also have "\<dots> = uint k + sint lo"
  proof (rule signed_take_bit_int_eq_self)
    have "0 \<le> uint k" by simp
    with b show "- (2 ^ 31) \<le> uint k + sint lo" by linarith
    from assms show "uint k + sint lo < 2 ^ 31" by linarith
  qed
  finally show ?thesis by simp
qed

lemma sched_priority_sint:
  fixes lo hi r :: "32 word"
  assumes "lo <s hi"
  shows "sint (sched_priority r lo hi) = sint lo + uint r mod (sint hi - sint lo)"
proof -
  have lt: "sint lo < sint hi" using assms by (simp add: word_sless_alt)
  have hb: "sint hi < 2 ^ 31" using sint_lt [of hi] by simp
  have k: "uint (r mod (hi - lo)) = uint r mod (sint hi - sint lo)"
    by (simp add: uint_mod_distrib rng_uint [OF assms])
  have "uint r mod (sint hi - sint lo) < sint hi - sint lo"
    using lt by simp
  then have "sint lo + uint (r mod (hi - lo)) < 2 ^ 31"
    using k hb by linarith
  then show ?thesis
    unfolding sched_priority_def using k by (simp add: sint_offset)
qed

lemma sched_priority_range:
  fixes lo hi r :: "32 word"
  assumes "lo <s hi"
  shows "lo \<le>s sched_priority r lo hi \<and> sched_priority r lo hi <s hi"
proof -
  have lt: "0 < sint hi - sint lo" using assms by (simp add: word_sless_alt)
  have "0 \<le> uint r mod (sint hi - sint lo)" "uint r mod (sint hi - sint lo) < sint hi - sint lo"
    using lt by simp_all
  then show ?thesis
    by (simp add: word_sle_eq word_sless_alt sched_priority_sint [OF assms])
qed

lemma sched_priority_attained:
  fixes lo hi v :: "32 word"
  assumes "lo \<le>s v" "v <s hi"
  shows "sched_priority (v - lo) lo hi = v"
proof -
  have lh: "lo <s hi" using assms by (simp add: word_sle_eq word_sless_alt)
  have le: "sint lo \<le> sint v" "sint v < sint hi"
    using assms by (simp_all add: word_sle_eq word_sless_alt)
  have u: "uint (v - lo) = sint v - sint lo"
  proof (cases "lo = v")
    case True then show ?thesis by simp
  next
    case False
    then have "sint lo \<noteq> sint v" using signed_word_eqI [of lo v, where ?'a = int] by blast
    then have "lo <s v" using le by (simp add: word_sless_alt)
    then show ?thesis by (rule rng_uint)
  qed
  have "sint (sched_priority (v - lo) lo hi) = sint lo + (sint v - sint lo) mod (sint hi - sint lo)"
    by (simp add: sched_priority_sint [OF lh] u)
  also have "\<dots> = sint v" using le by simp
  finally show ?thesis by (rule signed_word_eqI)
qed

section \<open>The trace of a pass\<close>

lemma trace_emit: "trace (emit es s) = trace s @ es"
  by (simp add: emit_def)

lemma trace_syscall: "trace (syscall r s) = trace s"
  by (simp add: syscall_def)

lemma trace_clamp_update: "trace (clamp_update a b s) = trace s"
  by (simp add: clamp_update_def Let_def)

lemma trace_ratchet: "trace (ratchet s) = trace s"
  by (simp add: ratchet_def Let_def)

lemma trace_param_roundtrip:
  "x \<in> set (trace s) \<Longrightarrow> x \<in> set (trace (param_roundtrip pf tpid h s))"
  by (simp add: param_roundtrip_def Let_def trace_emit trace_syscall)

lemma trace_attr_clamp:
  assumes "x \<in> set (trace s)"
  shows "x \<in> set (trace (attr_clamp pf tpid h s))"
proof (cases "have_sched_attr pf")
  case False
  then show ?thesis using assms by (simp add: attr_clamp_def)
next
  case True
  define s1 where "s1 = syscall (getattr h) (emit [Sched_getattr tpid] s)"
  define s2 where "s2 = (if fst (getattr h) < 0 \<and> errno s1 \<noteq> ENOSYS
                  then emit [Pr_fail_err ''sched_getattr''] s1 else s1)"
  define a_min where "a_min = (if fst (getattr h) < 0 then 0 else attr_util_min h)"
  define a_max where "a_max = (if fst (getattr h) < 0 then 0 else attr_util_max h)"
  define s3 where "s3 = clamp_update a_min a_max s2"
  define set_max where "set_max = (if a_max \<noteq> 0 then sched_util_max_value s3 else a_max)"
  define s4 where "s4 = syscall (setattr h) (emit [Sched_setattr tpid a_min set_max] s3)"
  define s5 where "s5 = (if fst (setattr h) < 0 \<and> errno s4 \<noteq> ENOSYS
                  then emit [Pr_fail_err ''sched_getattr''] s4 else s4)"
  have eq: "attr_clamp pf tpid h s = ratchet s5"
    using True
    unfolding attr_clamp_def s5_def s4_def set_max_def s3_def a_max_def a_min_def s2_def s1_def Let_def
    by simp
  have "x \<in> set (trace s2)" using assms by (simp add: s2_def s1_def trace_emit trace_syscall)
  then have "x \<in> set (trace s3)" by (simp add: s3_def trace_clamp_update)
  then have "x \<in> set (trace s5)" by (simp add: s5_def s4_def trace_emit trace_syscall)
  then show ?thesis by (simp add: eq trace_ratchet)
qed

lemma trace_check_policy_requery:
  assumes "0 \<le> ret"
  shows "Sched_getscheduler tpid \<in> set (trace (check_policy ret tpid np h s))"
  using assms by (simp add: check_policy_def Let_def trace_emit trace_syscall)

lemma trace_check_policy_mismatch:
  assumes "0 \<le> ret" "0 \<le> fst (getscheduler h)" "fst (getscheduler h) \<noteq> np"
  shows "Pr_fail_getscheduler tpid np (fst (getscheduler h)) \<in> set (trace (check_policy ret tpid np h s))"
  using assms by (simp add: check_policy_def Let_def trace_emit trace_syscall)

lemma iteration_Ret:
  assumes "switch_policy pf (if mwc1 h then 0 else args_pid args) (policies pf ! policy s) h s = Ret ret s1"
  shows "iteration pf args h s =
     emit [Inc_counter]
       ((emit [Sched_yield]
          (attr_clamp pf (if mwc1 h then 0 else args_pid args) h
            (param_roundtrip pf (if mwc1 h then 0 else args_pid args) h
              (check_policy ret (if mwc1 h then 0 else args_pid args) (policies pf ! policy s) h s1))))
        \<lparr>policy := (policy (attr_clamp pf (if mwc1 h then 0 else args_pid args) h
            (param_roundtrip pf (if mwc1 h then 0 else args_pid args) h
              (check_policy ret (if mwc1 h then 0 else args_pid args) (policies pf ! policy s) h s1))) + 1)
             mod length (policies pf)\<rparr>)"
  unfolding iteration_def Let_def assms by (simp add: emit_def)

lemma trace_iteration_Ret:
  assumes "switch_policy pf (if mwc1 h then 0 else args_pid args) (policies pf ! policy s) h s = Ret ret s1"
    and "x \<in> set (trace (check_policy ret (if mwc1 h then 0 else args_pid args) (policies pf ! policy s) h s1))"
  shows "x \<in> set (trace (iteration pf args h s))"
    and "last (trace (iteration pf args h s)) = Inc_counter"
  using trace_attr_clamp [OF trace_param_roundtrip [OF assms(2)]]
  by (simp_all add: iteration_Ret [OF assms(1)] trace_emit)

lemma do_while_run:
  assumes "\<forall>h \<in> set hs. keep_stressing h" "\<not> keep_stressing hl"
  shows "do_while pf args (hs @ hl # rest) s = Some (iterations pf args (hs @ [hl]) s)"
  using assms(1)
proof (induction hs arbitrary: s)
  case Nil
  then show ?case using assms(2) by (simp add: iterations_def Let_def)
next
  case (Cons h hs)
  then show ?case by (simp add: iterations_def Let_def)
qed

lemma do_while_unfinished:
  "\<forall>h \<in> set hs. keep_stressing h \<Longrightarrow> do_while pf args hs s = None"
  by (induction hs arbitrary: s) (simp_all add: Let_def)


lemma trace_check_policy:
  "x \<in> set (trace s) \<Longrightarrow> x \<in> set (trace (check_policy ret tpid np h s))"
  by (simp add: check_policy_def Let_def trace_emit trace_syscall)

lemma trace_realtime_trial:
  "x \<in> set (trace s) \<Longrightarrow> x \<in> set (trace (switch_state (realtime_trial r0 tpid np h s)))"
  by (simp add: realtime_trial_def Let_def trace_emit trace_syscall)

lemma trace_switch_policy:
  "x \<in> set (trace s) \<Longrightarrow> x \<in> set (trace (switch_state (switch_policy pf tpid np h s)))"
  by (simp add: switch_policy_def trace_realtime_trial trace_emit trace_syscall)

lemma trace_iteration:
  assumes "x \<in> set (trace s)"
  shows "x \<in> set (trace (iteration pf args h s))"
proof (cases "switch_policy pf (if mwc1 h then 0 else args_pid args) (policies pf ! policy s) h s")
  case (Skip_trial s1)
  then show ?thesis
    using trace_switch_policy [OF assms, of pf "if mwc1 h then 0 else args_pid args" "policies pf ! policy s" h]
    by (simp add: iteration_def Let_def)
next
  case (Ret ret s1)
  have "x \<in> set (trace s1)"
    using trace_switch_policy [OF assms, of pf "if mwc1 h then 0 else args_pid args" "policies pf ! policy s" h]
    by (simp add: Ret)
  then show ?thesis
    by (intro trace_iteration_Ret(1) [OF Ret] trace_check_policy)
qed

lemma trace_iterations:
  "x \<in> set (trace s) \<Longrightarrow> x \<in> set (trace (iterations pf args hs s))"
  by (induction hs arbitrary: s) (simp_all add: iterations_def trace_iteration)

section \<open>Properties of the clamp ratchet\<close>







lemma realtime_trial_skipped:
  "skipped (realtime_trial r0 tpid np h s) \<longleftrightarrow> \<not> no_skip h"
  by (simp add: realtime_trial_def Let_def no_skip_def)


lemma switch_policy_no_skip:
  "no_skip h \<Longrightarrow> \<not> skipped (switch_policy pf tpid np h s)"
  by (simp add: switch_policy_def realtime_trial_skipped)


















lemma iterations_Cons:
  "iterations pf args (h # hs) s = iterations pf args hs (iteration pf args h s)"
  by (simp add: iterations_def)
































section \<open>The sampled priority\<close>

lemma realtime_trial_sets_sample:
  assumes "priority_min h \<noteq> - 1" "priority_max h \<noteq> - 1" "priority_min h <s priority_max h"
  shows "realtime_trial ret tpid np h s =
     Ret (fst (setscheduler h))
       (syscall (setscheduler h)
         (emit [Sched_setscheduler tpid np (sched_priority (mwc32 h) (priority_min h) (priority_max h))]
           (emit [Sched_get_priority_min (int (policy s)), Sched_get_priority_max (int (policy s))] s)))"
proof -
  have "priority_max h - priority_min h \<noteq> 0" using assms(3) by auto
  then show ?thesis using assms(1,2) by (simp add: realtime_trial_def Let_def)
qed

text \<open>
  Claim C3, as amended. For a queried range with \<open>min < max\<close> (as signed ints) the
  priority computed at line 128 lies in \<open>[min, max - 1]\<close>: it is at least \<open>min\<close> and
  strictly below \<open>max\<close>; every value of \<open>[min, max - 1]\<close> is the priority for some
  value of \<open>mwc32()\<close>; and \<open>max\<close> itself is never the priority. When neither bound
  is -1, that priority is the one passed to \<open>sched_setscheduler\<close>.
\<close>

theorem priority_sampled_below_max:
  fixes lo hi :: "32 word"
  assumes "lo <s hi"
  shows "(\<forall>r. lo \<le>s sched_priority r lo hi \<and> sched_priority r lo hi <s hi) \<and>
         (\<forall>v. lo \<le>s v \<and> v <s hi \<longrightarrow> (\<exists>r. sched_priority r lo hi = v)) \<and>
         (\<forall>r. sched_priority r lo hi \<noteq> hi) \<and>
         (\<forall>h. priority_min h = lo \<and> priority_max h = hi \<and> lo \<noteq> - 1 \<and> hi \<noteq> - 1 \<longrightarrow>
            realtime_trial ret tpid np h s =
              Ret (fst (setscheduler h))
                (syscall (setscheduler h)
                  (emit [Sched_setscheduler tpid np (sched_priority (mwc32 h) lo hi)]
                    (emit [Sched_get_priority_min (int (policy s)),
                           Sched_get_priority_max (int (policy s))] s))))"
proof (intro conjI allI impI)
  fix r :: "32 word"
  show "lo \<le>s sched_priority r lo hi" "sched_priority r lo hi <s hi"
    using sched_priority_range [OF assms, of r] by simp_all
  then show "sched_priority r lo hi \<noteq> hi" by auto
next
  fix v :: "32 word"
  assume "lo \<le>s v \<and> v <s hi"
  then have "sched_priority (v - lo) lo hi = v" by (simp add: sched_priority_attained)
  then show "\<exists>r. sched_priority r lo hi = v" ..
next
  fix h :: host
  assume "priority_min h = lo \<and> priority_max h = hi \<and> lo \<noteq> - 1 \<and> hi \<noteq> - 1"
  then show "realtime_trial ret tpid np h s =
      Ret (fst (setscheduler h))
        (syscall (setscheduler h)
          (emit [Sched_setscheduler tpid np (sched_priority (mwc32 h) lo hi)]
            (emit [Sched_get_priority_min (int (policy s)),
                   Sched_get_priority_max (int (policy s))] s)))"
    using realtime_trial_sets_sample [of h ret tpid np s] assms by auto
qed

theorem priority_sampled_below_max_witness:
  "(1 :: 32 word) <s 99 \<and> sched_priority 97 1 99 = 98 \<and> sched_priority 98 1 99 = 1 \<and>
   (\<forall>r. sched_priority r 1 99 <s 99) \<and>
   realtime_trial 0 0 1 (quiet_host\<lparr>mwc32 := 97\<rparr>) (init_state\<lparr>policy := 1\<rparr>) =
     Ret 0 (emit [Sched_get_priority_min 1, Sched_get_priority_max 1, Sched_setscheduler 0 1 98]
              (init_state\<lparr>policy := 1\<rparr>))"
  using priority_sampled_below_max [of 1 99 0 0 1 "init_state\<lparr>policy := 1\<rparr>"]
  by (simp add: word_sless_alt sched_priority_def quiet_host_def emit_def syscall_def init_state_def)

text \<open>
  The claim as stated fails: with the Linux range 1..99 no value of \<open>mwc32()\<close> gives the
  priority 99.
\<close>

theorem priority_max_never_sampled: "\<not> (\<exists>r. sched_priority r 1 99 = 99)"
proof
  assume "\<exists>r. sched_priority r 1 99 = 99"
  then obtain r where r: "sched_priority r 1 99 = 99" ..
  have "(1 :: 32 word) <s 99" by (simp add: word_sless_alt)
  then have "sched_priority r 1 99 <s 99" using sched_priority_range by blast
  with r show False by simp
qed

section \<open>The empty policy table\<close>

lemma policies_none: "policies no_policy_platform = []"
  by (simp add: no_policy_platform_def policies_def defined_def)

text \<open>
  Claim C9, as amended. With an empty policy table the entry point returns
  \<open>EXIT_NOT_IMPLEMENTED\<close>, which is neither \<open>EXIT_SUCCESS\<close> nor \<open>EXIT_FAILURE\<close>,
  whatever the host would answer; it never runs the loop body, so it counts no
  operation; and it prints the informational message once when the worker is instance
  0 and not at all when it is any other instance.
\<close>

theorem no_policies_not_implemented:
  assumes "policies pf = []"
  shows "\<exists>s. stress_schedpolicy pf args hs = Some (EXIT_NOT_IMPLEMENTED, s) \<and>
           trace s = (if args_instance args = 0 then [Pr_inf_no_policies] else []) \<and>
           count_list (trace s) Inc_counter = 0 \<and>
           EXIT_NOT_IMPLEMENTED \<noteq> EXIT_FAILURE \<and> EXIT_NOT_IMPLEMENTED \<noteq> EXIT_SUCCESS"
  using assms
  by (simp add: stress_schedpolicy_def emit_def init_state_def EXIT_NOT_IMPLEMENTED_def
      EXIT_FAILURE_def EXIT_SUCCESS_def)

theorem no_policies_not_implemented_witness:
  "\<exists>s. stress_schedpolicy no_policy_platform \<lparr>args_instance = 0, args_pid = 100\<rparr> [] =
         Some (EXIT_NOT_IMPLEMENTED, s) \<and>
       trace s = [Pr_inf_no_policies] \<and> count_list (trace s) Inc_counter = 0"
  using no_policies_not_implemented [OF policies_none, of "\<lparr>args_instance = 0, args_pid = 100\<rparr>" "[]"]
  by simp blast

text \<open>
  The claim as stated fails: a worker that is not instance 0 prints no message at all.
\<close>

theorem no_message_from_other_instances:
  "stress_schedpolicy no_policy_platform \<lparr>args_instance = 1, args_pid = 100\<rparr> [] =
     Some (EXIT_NOT_IMPLEMENTED, init_state) \<and> trace init_state = []"
  by (simp add: stress_schedpolicy_def policies_none init_state_def)

section \<open>The argument of the range query\<close>

lemma unsupported_range_skips_trial:
  assumes "priority_min h = - 1 \<or> priority_max h = - 1"
  shows "realtime_trial ret tpid np h s =
     Skip_trial ((emit [Sched_get_priority_min (int (policy s)),
                        Sched_get_priority_max (int (policy s))] s)\<lparr>errno := EINVAL\<rparr>)"
  using assms by (auto simp add: realtime_trial_def Let_def)

lemma policies_linux_no_idle: "policies linux_no_idle = [1, 2, 0, 3]"
  by (simp add: policies_def linux_no_idle_def linux_def defined_def)

text \<open>
  Claim C2, evaluated where it fails. On a platform without \<open>SCHED_IDLE\<close> the table is
  \<open>{SCHED_FIFO, SCHED_RR, SCHED_OTHER, SCHED_BATCH} = {1, 2, 0, 3}\<close>. The first pass
  (index 0) is a \<open>SCHED_FIFO\<close> trial, and it asks for the priority range of policy 0,
  which is \<open>SCHED_OTHER\<close>; with that range 0..0 it prints the invalid-range error for
  \<open>SCHED_FIFO\<close> and never calls \<open>sched_setscheduler\<close>. The pass at index 1 is a
  \<open>SCHED_RR\<close> trial: it asks for the range of policy 1, \<open>SCHED_FIFO\<close>, and then sets
  policy 2.
\<close>

theorem range_queried_with_table_index:
  "policies linux_no_idle = [1, 2, 0, 3] \<and>
   switch_policy linux_no_idle 0 (policies linux_no_idle ! policy init_state)
       (quiet_host\<lparr>priority_min := 0, priority_max := 0\<rparr>) init_state =
     Ret 0 (emit [Sched_get_priority_min 0, Sched_get_priority_max 0,
                  Pr_err_invalid_range 1 0 0] init_state) \<and>
   switch_policy linux_no_idle 0 (policies linux_no_idle ! policy (init_state\<lparr>policy := 1\<rparr>))
       quiet_host (init_state\<lparr>policy := 1\<rparr>) =
     Ret 0 (emit [Sched_rr_get_interval 0, Sched_get_priority_min 1, Sched_get_priority_max 1,
                  Sched_setscheduler 0 2 1] (init_state\<lparr>policy := 1\<rparr>))"
  by (simp add: policies_linux_no_idle)
     (simp add: switch_policy_def realtime_trial_def linux_no_idle_def linux_def quiet_host_def
        init_state_def emit_def syscall_def sched_priority_def Let_def)

section \<open>The consistency check and the end of the run\<close>

lemma prefix_emit: "prefix (trace s) (trace (emit es s))"
  by (simp add: emit_def)

lemma prefix_check_policy: "prefix (trace s) (trace (check_policy ret tpid np h s))"
  by (simp add: check_policy_def Let_def trace_emit trace_syscall)

lemma prefix_param_roundtrip: "prefix (trace s) (trace (param_roundtrip pf tpid h s))"
  by (simp add: param_roundtrip_def Let_def trace_emit trace_syscall)

lemma prefix_attr_clamp: "prefix (trace s) (trace (attr_clamp pf tpid h s))"
proof (cases "have_sched_attr pf")
  case False
  then show ?thesis by (simp add: attr_clamp_def)
next
  case True
  define s1 where "s1 = syscall (getattr h) (emit [Sched_getattr tpid] s)"
  define s2 where "s2 = (if fst (getattr h) < 0 \<and> errno s1 \<noteq> ENOSYS
                  then emit [Pr_fail_err ''sched_getattr''] s1 else s1)"
  define a_min where "a_min = (if fst (getattr h) < 0 then 0 else attr_util_min h)"
  define a_max where "a_max = (if fst (getattr h) < 0 then 0 else attr_util_max h)"
  define s3 where "s3 = clamp_update a_min a_max s2"
  define set_max where "set_max = (if a_max \<noteq> 0 then sched_util_max_value s3 else a_max)"
  define s4 where "s4 = syscall (setattr h) (emit [Sched_setattr tpid a_min set_max] s3)"
  define s5 where "s5 = (if fst (setattr h) < 0 \<and> errno s4 \<noteq> ENOSYS
                  then emit [Pr_fail_err ''sched_getattr''] s4 else s4)"
  have eq: "attr_clamp pf tpid h s = ratchet s5"
    using True
    unfolding attr_clamp_def s5_def s4_def set_max_def s3_def a_max_def a_min_def s2_def s1_def Let_def
    by simp
  have "prefix (trace s) (trace s2)" by (simp add: s2_def s1_def trace_emit trace_syscall)
  then have "prefix (trace s) (trace s3)" by (simp add: s3_def trace_clamp_update)
  moreover have "prefix (trace s3) (trace s5)" by (simp add: s5_def s4_def trace_emit trace_syscall)
  ultimately have "prefix (trace s) (trace s5)" by (rule prefix_order.trans)
  then show ?thesis by (simp add: eq trace_ratchet)
qed

lemma prefix_realtime_trial:
  "prefix (trace s) (trace (switch_state (realtime_trial r0 tpid np h s)))"
  by (simp add: realtime_trial_def Let_def trace_emit trace_syscall)

lemma prefix_switch_policy:
  "prefix (trace s) (trace (switch_state (switch_policy pf tpid np h s)))"
proof -
  have rr: "prefix (trace s) (trace (switch_state (realtime_trial r0 tpid np h
      (syscall (rr_get_interval h) (emit [Sched_rr_get_interval tpid] s)))))" for r0
  proof -
    have "prefix (trace s) (trace (syscall (rr_get_interval h) (emit [Sched_rr_get_interval tpid] s)))"
      by (simp add: trace_syscall trace_emit)
    then show ?thesis
      using prefix_realtime_trial prefix_order.trans by blast
  qed
  show ?thesis
    by (simp add: switch_policy_def trace_emit trace_syscall rr prefix_realtime_trial)
qed


lemma trace_check_policy_exact:
  assumes "0 \<le> ret" "0 \<le> fst (getscheduler h)" "fst (getscheduler h) \<noteq> np"
  shows "trace (check_policy ret tpid np h s) =
     trace s @ [Sched_getscheduler tpid, Pr_fail_getscheduler tpid np (fst (getscheduler h))]"
  using assms by (simp add: check_policy_def Let_def trace_emit trace_syscall)

lemma prefix_check_policy_requery:
  assumes "0 \<le> ret"
  shows "prefix (trace s @ [Sched_getscheduler tpid]) (trace (check_policy ret tpid np h s))"
  using assms by (simp add: check_policy_def Let_def trace_emit trace_syscall)

lemma prefix_iteration_Ret:
  assumes "switch_policy pf (if mwc1 h then 0 else args_pid args) (policies pf ! policy s) h s = Ret ret s1"
  shows "prefix (trace (check_policy ret (if mwc1 h then 0 else args_pid args) (policies pf ! policy s) h s1))
           (trace (iteration pf args h s))"
proof -
  let ?c = "check_policy ret (if mwc1 h then 0 else args_pid args) (policies pf ! policy s) h s1"
  let ?p = "param_roundtrip pf (if mwc1 h then 0 else args_pid args) h ?c"
  let ?a = "attr_clamp pf (if mwc1 h then 0 else args_pid args) h ?p"
  have "prefix (trace ?c) (trace ?p)" by (rule prefix_param_roundtrip)
  moreover have "prefix (trace ?p) (trace ?a)" by (rule prefix_attr_clamp)
  ultimately have "prefix (trace ?c) (trace ?a)" by (rule prefix_order.trans)
  moreover have "prefix (trace ?a) (trace (iteration pf args h s))"
    by (simp add: iteration_Ret [OF assms] trace_emit)
  ultimately show ?thesis by (rule prefix_order.trans)
qed

lemma prefix_iteration: "prefix (trace s) (trace (iteration pf args h s))"
proof (cases "switch_policy pf (if mwc1 h then 0 else args_pid args) (policies pf ! policy s) h s")
  case (Skip_trial s1)
  then show ?thesis
    using prefix_switch_policy [of s pf "if mwc1 h then 0 else args_pid args" "policies pf ! policy s" h]
    by (simp add: iteration_def Let_def)
next
  case (Ret ret s1)
  have "prefix (trace s) (trace s1)"
    using prefix_switch_policy [of s pf "if mwc1 h then 0 else args_pid args" "policies pf ! policy s" h]
    by (simp add: Ret)
  moreover have "prefix (trace s1)
      (trace (check_policy ret (if mwc1 h then 0 else args_pid args) (policies pf ! policy s) h s1))"
    by (rule prefix_check_policy)
  ultimately have "prefix (trace s)
      (trace (check_policy ret (if mwc1 h then 0 else args_pid args) (policies pf ! policy s) h s1))"
    by (rule prefix_order.trans)
  then show ?thesis using prefix_iteration_Ret [OF Ret] by (rule prefix_order.trans)
qed

lemma prefix_iterations: "prefix (trace s) (trace (iterations pf args hs s))"
proof (induction hs arbitrary: s)
  case Nil
  then show ?case by (simp add: iterations_def)
next
  case (Cons h hs)
  have "prefix (trace s) (trace (iteration pf args h s))" by (rule prefix_iteration)
  moreover have "prefix (trace (iteration pf args h s))
      (trace (iterations pf args hs (iteration pf args h s)))" by (rule Cons)
  ultimately have "prefix (trace s) (trace (iterations pf args hs (iteration pf args h s)))"
    by (rule prefix_order.trans)
  then show ?case by (simp add: iterations_Cons)
qed

lemma policy_emit: "policy (emit es s) = policy s"
  by (simp add: emit_def)

lemma policy_syscall: "policy (syscall r s) = policy s"
  by (simp add: syscall_def)

lemma policy_iteration_Ret:
  assumes "switch_policy pf (if mwc1 h then 0 else args_pid args) (policies pf ! policy s) h s = Ret ret s1"
  shows "policy (iteration pf args h s) =
     (policy (attr_clamp pf (if mwc1 h then 0 else args_pid args) h
        (param_roundtrip pf (if mwc1 h then 0 else args_pid args) h
          (check_policy ret (if mwc1 h then 0 else args_pid args) (policies pf ! policy s) h s1))) + 1)
       mod length (policies pf)"
  by (simp add: iteration_Ret [OF assms] policy_emit)

lemma policy_check_policy: "policy (check_policy ret tpid np h s) = policy s"
  by (simp add: check_policy_def Let_def policy_emit policy_syscall)

lemma policy_param_roundtrip: "policy (param_roundtrip pf tpid h s) = policy s"
  by (simp add: param_roundtrip_def Let_def policy_emit policy_syscall)

lemma policy_clamp_update: "policy (clamp_update a b s) = policy s"
  by (simp add: clamp_update_def Let_def)

lemma policy_ratchet: "policy (ratchet s) = policy s"
  by (simp add: ratchet_def Let_def)

lemma policy_attr_clamp: "policy (attr_clamp pf tpid h s) = policy s"
proof (cases "have_sched_attr pf")
  case False
  then show ?thesis by (simp add: attr_clamp_def)
next
  case True
  define s1 where "s1 = syscall (getattr h) (emit [Sched_getattr tpid] s)"
  define s2 where "s2 = (if fst (getattr h) < 0 \<and> errno s1 \<noteq> ENOSYS
                  then emit [Pr_fail_err ''sched_getattr''] s1 else s1)"
  define a_min where "a_min = (if fst (getattr h) < 0 then 0 else attr_util_min h)"
  define a_max where "a_max = (if fst (getattr h) < 0 then 0 else attr_util_max h)"
  define s3 where "s3 = clamp_update a_min a_max s2"
  define set_max where "set_max = (if a_max \<noteq> 0 then sched_util_max_value s3 else a_max)"
  define s4 where "s4 = syscall (setattr h) (emit [Sched_setattr tpid a_min set_max] s3)"
  define s5 where "s5 = (if fst (setattr h) < 0 \<and> errno s4 \<noteq> ENOSYS
                  then emit [Pr_fail_err ''sched_getattr''] s4 else s4)"
  have eq: "attr_clamp pf tpid h s = ratchet s5"
    using True
    unfolding attr_clamp_def s5_def s4_def set_max_def s3_def a_max_def a_min_def s2_def s1_def Let_def
    by simp
  have "policy s2 = policy s" by (simp add: s2_def s1_def policy_emit policy_syscall)
  then have "policy s3 = policy s" by (simp add: s3_def policy_clamp_update)
  then have "policy s5 = policy s" by (simp add: s5_def s4_def policy_emit policy_syscall)
  then show ?thesis by (simp add: eq policy_ratchet)
qed

lemma policy_realtime_trial:
  "policy (switch_state (realtime_trial r0 tpid np h s)) = policy s"
  by (simp add: realtime_trial_def Let_def policy_emit policy_syscall)

lemma policy_switch_policy:
  "policy (switch_state (switch_policy pf tpid np h s)) = policy s"
  by (simp add: switch_policy_def policy_realtime_trial policy_emit policy_syscall)

lemma policy_iteration:
  assumes "no_skip h"
  shows "policy (iteration pf args h s) = (policy s + 1) mod length (policies pf)"
proof -
  from switch_policy_no_skip [OF assms, of pf "if mwc1 h then 0 else args_pid args" "policies pf ! policy s" s]
  obtain ret s1 where sw: "switch_policy pf (if mwc1 h then 0 else args_pid args)
      (policies pf ! policy s) h s = Ret ret s1"
    by (cases "switch_policy pf (if mwc1 h then 0 else args_pid args) (policies pf ! policy s) h s")
       simp_all
  have "policy s1 = policy s"
    using policy_switch_policy [of pf "if mwc1 h then 0 else args_pid args" "policies pf ! policy s" h s]
    by (simp add: sw)
  then show ?thesis
    by (simp add: policy_iteration_Ret [OF sw] policy_attr_clamp policy_param_roundtrip
        policy_check_policy)
qed


lemma policies_linux: "policies linux = [5, 1, 2, 0, 3]"
  by (simp add: policies_def linux_def defined_def)

lemma switch_idle_quiet:
  "switch_policy linux 0 5 (quiet_host\<lparr>keep_stressing := True\<rparr>) init_state =
     Ret 0 (emit [Sched_setscheduler 0 5 0] init_state)"
  by (simp add: switch_policy_def linux_def quiet_host_def syscall_def)

lemma switch_fifo_quiet:
  assumes "policy s = 1"
  shows "switch_policy linux 0 1 (quiet_host\<lparr>keep_stressing := True\<rparr>) s =
     Ret 0 (emit [Sched_get_priority_min 1, Sched_get_priority_max 1, Sched_setscheduler 0 1 1] s)"
  using assms
  by (simp add: switch_policy_def realtime_trial_def linux_def quiet_host_def syscall_def
      emit_def sched_priority_def Let_def)

lemma second_pass_state:
  "policy (iteration linux args (quiet_host\<lparr>keep_stressing := True\<rparr>) init_state) = 1"
proof -
  have "no_skip (quiet_host\<lparr>keep_stressing := True\<rparr>)"
    by (simp add: no_skip_def quiet_host_def)
  then show ?thesis
    by (simp add: policy_iteration policies_linux) (simp add: init_state_def)
qed

text \<open>
  Claim C1, as amended. Take a run of the loop in which \<open>keep_stressing()\<close> is true
  after every pass of \<open>pre @ h # post\<close> and false after the pass \<open>hl\<close>, and let the
  pass \<open>h\<close> leave the \<open>switch\<close> in state \<open>s1\<close> with \<open>ret \<ge> 0\<close>, as after a
  successful \<open>sched_setscheduler\<close>. The first thing that pass then adds to the trace is
  its call of \<open>sched_getscheduler\<close>, and when the policy returned is not the one of
  the trial the failure message of line 154 follows it directly; both are events of
  this pass, at their place in the trace, whatever earlier passes have printed. The
  failure does not end the run: the pass goes on to \<open>inc_counter\<close>, the loop goes on
  through \<open>post\<close> and ends only after \<open>hl\<close>, the entry point returns
  \<open>EXIT_SUCCESS\<close>, and while \<open>keep_stressing()\<close> stays true it has not returned.
\<close>

theorem mismatch_reported_run_goes_on:
  assumes ne: "policies pf \<noteq> []"
    and keep: "\<forall>x \<in> set (pre @ h # post). keep_stressing x" and stop: "\<not> keep_stressing hl"
    and s: "s = iterations pf args pre init_state"
    and sw: "switch_policy pf (if mwc1 h then 0 else args_pid args) (policies pf ! policy s) h s = Ret ret s1"
    and ok: "0 \<le> ret"
  shows "prefix (trace s) (trace s1) \<and>
         prefix (trace s1 @ [Sched_getscheduler (if mwc1 h then 0 else args_pid args)])
           (trace (iteration pf args h s)) \<and>
         (0 \<le> fst (getscheduler h) \<and> fst (getscheduler h) \<noteq> policies pf ! policy s \<longrightarrow>
            prefix (trace s1 @ [Sched_getscheduler (if mwc1 h then 0 else args_pid args),
                      Pr_fail_getscheduler (if mwc1 h then 0 else args_pid args)
                        (policies pf ! policy s) (fst (getscheduler h))])
              (trace (iteration pf args h s)) \<and>
            Pr_fail_getscheduler (if mwc1 h then 0 else args_pid args) (policies pf ! policy s)
                (fst (getscheduler h))
              \<in> set (trace (iterations pf args (pre @ h # post @ [hl]) init_state))) \<and>
         last (trace (iteration pf args h s)) = Inc_counter \<and>
         prefix (trace (iteration pf args h s))
           (trace (iterations pf args (pre @ h # post @ [hl]) init_state)) \<and>
         stress_schedpolicy pf args (pre @ h # post @ hl # rest) =
           Some (EXIT_SUCCESS, iterations pf args (pre @ h # post @ [hl]) init_state) \<and>
         stress_schedpolicy pf args (pre @ h # post) = None"
proof (intro conjI)
  let ?tpid = "if mwc1 h then 0 else args_pid args"
  let ?np = "policies pf ! policy s"
  let ?run = "iterations pf args (pre @ h # post @ [hl]) init_state"
  have run: "?run = iterations pf args (post @ [hl]) (iteration pf args h s)"
    by (simp add: iterations_def s)
  show "prefix (trace s) (trace s1)"
    using prefix_switch_policy [of s pf ?tpid ?np h] by (simp add: sw)
  have it: "prefix (trace (check_policy ret ?tpid ?np h s1)) (trace (iteration pf args h s))"
    by (rule prefix_iteration_Ret [OF sw])
  show "prefix (trace s1 @ [Sched_getscheduler ?tpid]) (trace (iteration pf args h s))"
    using prefix_check_policy_requery [OF ok] it by (rule prefix_order.trans)
  show "last (trace (iteration pf args h s)) = Inc_counter"
    by (simp add: iteration_Ret [OF sw] trace_emit)
  show tail: "prefix (trace (iteration pf args h s)) (trace ?run)"
    unfolding run by (rule prefix_iterations)
  show "0 \<le> fst (getscheduler h) \<and> fst (getscheduler h) \<noteq> ?np \<longrightarrow>
      prefix (trace s1 @ [Sched_getscheduler ?tpid,
                Pr_fail_getscheduler ?tpid ?np (fst (getscheduler h))])
        (trace (iteration pf args h s)) \<and>
      Pr_fail_getscheduler ?tpid ?np (fst (getscheduler h)) \<in> set (trace ?run)"
  proof (intro impI)
    assume r: "0 \<le> fst (getscheduler h) \<and> fst (getscheduler h) \<noteq> ?np"
    then have ex: "trace (check_policy ret ?tpid ?np h s1) =
        trace s1 @ [Sched_getscheduler ?tpid, Pr_fail_getscheduler ?tpid ?np (fst (getscheduler h))]"
      using trace_check_policy_exact [OF ok, of h ?np ?tpid s1] by simp
    then have p: "prefix (trace s1 @ [Sched_getscheduler ?tpid,
                Pr_fail_getscheduler ?tpid ?np (fst (getscheduler h))])
        (trace (iteration pf args h s))"
      using it by simp
    then have "prefix (trace s1 @ [Sched_getscheduler ?tpid,
                Pr_fail_getscheduler ?tpid ?np (fst (getscheduler h))]) (trace ?run)"
      using tail by (rule prefix_order.trans)
    then have "set (trace s1 @ [Sched_getscheduler ?tpid,
                Pr_fail_getscheduler ?tpid ?np (fst (getscheduler h))]) \<subseteq> set (trace ?run)"
      by (rule set_mono_prefix)
    then have "Pr_fail_getscheduler ?tpid ?np (fst (getscheduler h)) \<in> set (trace ?run)"
      by simp
    with p show "prefix (trace s1 @ [Sched_getscheduler ?tpid,
                Pr_fail_getscheduler ?tpid ?np (fst (getscheduler h))])
        (trace (iteration pf args h s)) \<and>
      Pr_fail_getscheduler ?tpid ?np (fst (getscheduler h)) \<in> set (trace ?run)" by simp
  qed
  have "do_while pf args ((pre @ h # post) @ hl # rest) init_state =
      Some (iterations pf args ((pre @ h # post) @ [hl]) init_state)"
    by (rule do_while_run [OF keep stop])
  then show "stress_schedpolicy pf args (pre @ h # post @ hl # rest) = Some (EXIT_SUCCESS, ?run)"
    using ne by (simp add: stress_schedpolicy_def)
  show "stress_schedpolicy pf args (pre @ h # post) = None"
    using ne do_while_unfinished [OF keep, of pf args init_state]
    by (simp add: stress_schedpolicy_def)
qed

text \<open>
  On Linux the second pass is a \<open>SCHED_FIFO\<close> trial; the host reports policy 0 back and
  the pass adds its own query and failure message after those of the first pass.
\<close>

theorem mismatch_reported_run_goes_on_witness:
  "prefix (trace (iteration linux \<lparr>args_instance = 0, args_pid = 100\<rparr>
              (quiet_host\<lparr>keep_stressing := True\<rparr>) init_state) @
           [Sched_get_priority_min 1, Sched_get_priority_max 1, Sched_setscheduler 0 1 1,
            Sched_getscheduler 0, Pr_fail_getscheduler 0 1 0])
     (trace (iterations linux \<lparr>args_instance = 0, args_pid = 100\<rparr>
       [quiet_host\<lparr>keep_stressing := True\<rparr>, quiet_host\<lparr>keep_stressing := True\<rparr>, quiet_host]
       init_state)) \<and>
   stress_schedpolicy linux \<lparr>args_instance = 0, args_pid = 100\<rparr>
       [quiet_host\<lparr>keep_stressing := True\<rparr>, quiet_host\<lparr>keep_stressing := True\<rparr>, quiet_host] =
     Some (EXIT_SUCCESS, iterations linux \<lparr>args_instance = 0, args_pid = 100\<rparr>
       [quiet_host\<lparr>keep_stressing := True\<rparr>, quiet_host\<lparr>keep_stressing := True\<rparr>, quiet_host]
       init_state)"
proof -
  let ?args = "\<lparr>args_instance = 0, args_pid = 100\<rparr>"
  let ?q = "quiet_host\<lparr>keep_stressing := True\<rparr>"
  let ?s = "iteration linux ?args ?q init_state"
  let ?s1 = "emit [Sched_get_priority_min 1, Sched_get_priority_max 1, Sched_setscheduler 0 1 1] ?s"
  have ne: "policies linux \<noteq> []" by (simp add: policies_linux)
  have keep: "\<forall>x \<in> set ([?q] @ ?q # []). keep_stressing x" by (simp add: quiet_host_def)
  have stop: "\<not> keep_stressing quiet_host" by (simp add: quiet_host_def)
  have s: "?s = iterations linux ?args [?q] init_state" by (simp add: iterations_def)
  have pol: "policy ?s = 1" by (rule second_pass_state)
  have q: "mwc1 ?q" "fst (getscheduler ?q) = 0" by (simp_all add: quiet_host_def)
  have sw: "switch_policy linux (if mwc1 ?q then 0 else args_pid ?args) (policies linux ! policy ?s) ?q ?s
      = Ret 0 ?s1"
    using switch_fifo_quiet [OF pol] by (simp add: q pol policies_linux)
  note t = mismatch_reported_run_goes_on [OF ne keep stop s sw, of "[]"]
  have mis: "0 \<le> fst (getscheduler ?q) \<and> fst (getscheduler ?q) \<noteq> policies linux ! policy ?s"
    by (simp add: pol policies_linux) (simp add: quiet_host_def)
  have a: "prefix (trace ?s1 @ [Sched_getscheduler 0, Pr_fail_getscheduler 0 1 0])
      (trace (iteration linux ?args ?q ?s))"
    using t [THEN conjunct2, THEN conjunct2, THEN conjunct1] mis
    by (simp add: pol policies_linux) (simp add: quiet_host_def)
  have b: "prefix (trace (iteration linux ?args ?q ?s))
      (trace (iterations linux ?args ([?q] @ ?q # [] @ [quiet_host]) init_state))"
    using t [THEN conjunct2, THEN conjunct2, THEN conjunct2, THEN conjunct2, THEN conjunct1]
    by simp
  from a b have "prefix (trace ?s1 @ [Sched_getscheduler 0, Pr_fail_getscheduler 0 1 0])
      (trace (iterations linux ?args ([?q] @ ?q # [] @ [quiet_host]) init_state))"
    by (rule prefix_order.trans)
  then have A: "prefix (trace ?s @
           [Sched_get_priority_min 1, Sched_get_priority_max 1, Sched_setscheduler 0 1 1,
            Sched_getscheduler 0, Pr_fail_getscheduler 0 1 0])
      (trace (iterations linux ?args [?q, ?q, quiet_host] init_state))"
    by (simp add: trace_emit)
  have B: "stress_schedpolicy linux ?args [?q, ?q, quiet_host] =
      Some (EXIT_SUCCESS, iterations linux ?args [?q, ?q, quiet_host] init_state)"
    using t [THEN conjunct2, THEN conjunct2, THEN conjunct2, THEN conjunct2, THEN conjunct2,
        THEN conjunct1]
    by simp
  from A B show ?thesis by (rule conjI)
qed

text \<open>
  The claim as stated fails: on Linux the first pass sets \<open>SCHED_IDLE\<close> (5), the host
  reports policy 0 back, the failure is printed, and still the loop makes its second
  pass and the entry point returns \<open>EXIT_SUCCESS\<close>.
\<close>

theorem mismatch_does_not_end_the_run:
  "stress_schedpolicy linux \<lparr>args_instance = 0, args_pid = 100\<rparr>
       [quiet_host\<lparr>keep_stressing := True\<rparr>, quiet_host] =
     Some (EXIT_SUCCESS, iterations linux \<lparr>args_instance = 0, args_pid = 100\<rparr>
       [quiet_host\<lparr>keep_stressing := True\<rparr>, quiet_host] init_state) \<and>
   Pr_fail_getscheduler 0 5 0 \<in> set (trace (iterations linux \<lparr>args_instance = 0, args_pid = 100\<rparr>
       [quiet_host\<lparr>keep_stressing := True\<rparr>, quiet_host] init_state))"
proof -
  let ?args = "\<lparr>args_instance = 0, args_pid = 100\<rparr>"
  let ?h1 = "quiet_host\<lparr>keep_stressing := True\<rparr>"
  have k: "\<forall>x \<in> set [?h1]. keep_stressing x" "\<not> keep_stressing quiet_host"
    by (simp_all add: quiet_host_def)
  have "do_while linux ?args ([?h1] @ quiet_host # []) init_state =
      Some (iterations linux ?args ([?h1] @ [quiet_host]) init_state)"
    by (rule do_while_run [OF k])
  then have A: "stress_schedpolicy linux ?args [?h1, quiet_host] =
      Some (EXIT_SUCCESS, iterations linux ?args [?h1, quiet_host] init_state)"
    by (simp add: stress_schedpolicy_def policies_linux)
  have sw: "switch_policy linux (if mwc1 ?h1 then 0 else args_pid ?args)
      (policies linux ! policy init_state) ?h1 init_state = Ret 0 (emit [Sched_setscheduler 0 5 0] init_state)"
    using switch_idle_quiet by (simp add: policies_linux quiet_host_def init_state_def)
  have "Pr_fail_getscheduler 0 5 (fst (getscheduler ?h1)) \<in> set (trace (check_policy 0
      (if mwc1 ?h1 then 0 else args_pid ?args) (policies linux ! policy init_state) ?h1
      (emit [Sched_setscheduler 0 5 0] init_state)))"
    using trace_check_policy_mismatch [of 0 ?h1 5 0 "emit [Sched_setscheduler 0 5 0] init_state"]
    by (simp add: policies_linux quiet_host_def init_state_def)
  then have "Pr_fail_getscheduler 0 5 (fst (getscheduler ?h1)) \<in> set (trace (iteration linux ?args ?h1 init_state))"
    by (rule trace_iteration_Ret(1) [OF sw])
  then have "Pr_fail_getscheduler 0 5 0 \<in> set (trace (iteration linux ?args ?h1 init_state))"
    by (simp add: quiet_host_def)
  then have "Pr_fail_getscheduler 0 5 0 \<in> set (trace (iterations linux ?args [quiet_host]
      (iteration linux ?args ?h1 init_state)))"
    by (rule trace_iterations)
  then have B: "Pr_fail_getscheduler 0 5 0 \<in> set (trace (iterations linux ?args [?h1, quiet_host] init_state))"
    by (simp add: iterations_def)
  from A B show ?thesis by simp
qed


end
